theory Spec2Isabelle
  imports Complex_Main
begin

section \<open>GFM-IAIF: the notebook \<^verbatim>\<open>gfmiaif.ipynb\<close> as a state-passing program\<close>

text \<open>
  The notebook is a straight-line script over Python globals. Each code cell is modelled
  as a function on a record of those globals; a cell that can raise returns
  \<open>error + notebook\<close>. Samples and coefficients are Python floats in the source and
  real numbers here: the arithmetic is exact, rounding is not modelled. One-dimensional
  numpy arrays and Python lists are HOL lists; Python integers are \<open>int\<close>.

  The routines of numpy and scipy that the cells call are written out from their documented
  behaviour. The linear-prediction routine \<^verbatim>\<open>librosa.lpc\<close> is a library routine too, and
  its source is not part of the repository: it is an argument \<open>lpc\<close> of every cell that
  calls it, and every general statement below holds for an arbitrary \<open>lpc\<close>, under the
  part of its contract that is named in the statement. \<open>librosa_lpc\<close> is Burg's
  recursion as that library implements it; it is proved to meet the contract and is the
  instance on which concrete runs are evaluated.
\<close>

subsection \<open>Exceptions\<close>

text \<open>
  \<open>IndexError\<close> and \<open>ValueError\<close> are raised by Python and numpy themselves.
  \<open>ParameterError\<close> is the linear-prediction routine's rejection of an order below 1,
  \<open>DegenerateFrameError\<close> its failure on a signal it cannot fit (librosa raises
  \<^verbatim>\<open>FloatingPointError\<close> there).
\<close>

datatype error = IndexError | ValueError | ParameterError | DegenerateFrameError

definition bindE :: "error + 'a \<Rightarrow> ('a \<Rightarrow> error + 'b) \<Rightarrow> error + 'b" where
  "bindE m f = (case m of Inl e \<Rightarrow> Inl e | Inr x \<Rightarrow> f x)"

subsection \<open>numpy and scipy primitives\<close>

text \<open>\<^verbatim>\<open>np.dot\<close> on two vectors of the same length.\<close>

definition dot :: "real list \<Rightarrow> real list \<Rightarrow> real" where
  "dot u v = sum_list (map2 (*) u v)"

text \<open>
  \<^verbatim>\<open>np.hanning(M)\<close>: empty below one sample, \<open>[1]\<close> for one sample, otherwise
  \<open>w(n) = 0.5 - 0.5 cos(2 \<pi> n / (M - 1))\<close> for \<open>0 \<le> n \<le> M - 1\<close>.
\<close>

definition np_hanning :: "int \<Rightarrow> real list" where
  "np_hanning M =
     (if M < 1 then []
      else if M = 1 then [1]
      else map (\<lambda>n. 1/2 - 1/2 * cos (2 * pi * real n / real_of_int (M - 1))) [0..<nat M])"

text \<open>
  \<^verbatim>\<open>np.linspace(start, stop, num)\<close> with the endpoint included: a negative \<open>num\<close>
  raises \<^verbatim>\<open>ValueError\<close>, a single sample is \<open>start\<close>.
\<close>

definition np_linspace :: "real \<Rightarrow> real \<Rightarrow> int \<Rightarrow> error + real list" where
  "np_linspace start stop num =
     (if num < 0 then Inl ValueError
      else if num = 1 then Inr [start]
      else Inr (map (\<lambda>k. start + real k * ((stop - start) / real_of_int (num - 1)))
                  [0..<nat num]))"

text \<open>\<^verbatim>\<open>np.arange(a, b)\<close> on integers: \<open>a, a + 1, \<dots>, b - 1\<close>.\<close>

definition np_arange :: "int \<Rightarrow> int \<Rightarrow> int list" where
  "np_arange a b = [a..b - 1]"

text \<open>
  Indexing \<^verbatim>\<open>x[k]\<close> with one integer: a negative index counts from the end, an index out
  of range raises \<^verbatim>\<open>IndexError\<close>. \<^verbatim>\<open>x[idx]\<close> with an integer array indexes elementwise.
\<close>

definition getitem :: "real list \<Rightarrow> int \<Rightarrow> error + real" where
  "getitem x k =
     (let n = int (length x); j = (if k < 0 then n + k else k)
      in if 0 \<le> j \<and> j < n then Inr (x ! nat j) else Inl IndexError)"

fun take_idx :: "real list \<Rightarrow> int list \<Rightarrow> error + real list" where
  "take_idx x [] = Inr []"
| "take_idx x (k # ks) =
     bindE (getitem x k) (\<lambda>v. bindE (take_idx x ks) (\<lambda>vs. Inr (v # vs)))"

text \<open>
  \<^verbatim>\<open>np.multiply\<close> on two vectors, with numpy's broadcasting: equal lengths multiply
  elementwise, a vector of length one scales the other, anything else raises
  \<^verbatim>\<open>ValueError\<close>.
\<close>

definition np_multiply :: "real list \<Rightarrow> real list \<Rightarrow> error + real list" where
  "np_multiply x w =
     (if length x = length w then Inr (map2 (*) x w)
      else if length w = 1 then Inr (map (\<lambda>v. v * hd w) x)
      else if length x = 1 then Inr (map (\<lambda>v. hd x * v) w)
      else Inl ValueError)"

text \<open>
  \<^verbatim>\<open>scipy.signal.lfilter(b, a, x)\<close>, direct form with zero initial state:
  \<open>a[0] y[n] = b[0] x[n] + \<dots> + b[M] x[n-M] - a[1] y[n-1] - \<dots> - a[K] y[n-K]\<close>.
  \<open>xh\<close> and \<open>yh\<close> hold the inputs and outputs seen so far, latest first. An empty
  coefficient vector or \<open>a[0] = 0\<close> raises \<^verbatim>\<open>ValueError\<close>; the notebook passes \<open>[1.0]\<close>,
  \<open>[1.0, -d]\<close> and the filters that the linear-prediction routine returns.
\<close>

fun lfilter_run :: "real list \<Rightarrow> real list \<Rightarrow> real list \<Rightarrow> real list \<Rightarrow> real list \<Rightarrow> real list" where
  "lfilter_run b a xh yh [] = []"
| "lfilter_run b a xh yh (x # xs) =
     (let y = (dot b (x # xh) - dot (tl a) yh) / hd a
      in y # lfilter_run b a (x # xh) (y # yh) xs)"

definition lfilter :: "real list \<Rightarrow> real list \<Rightarrow> real list \<Rightarrow> error + real list" where
  "lfilter b a x =
     (if b = [] \<or> a = [] \<or> hd a = 0 then Inl ValueError
      else Inr (lfilter_run b a [] [] x))"

text \<open>
  \<^verbatim>\<open>np.convolve(a, v)\<close> in its default full mode:
  \<open>(a * v)[n] = \<Sum>m. a[m] v[n - m]\<close>, of length \<open>len a + len v - 1\<close>; an empty operand
  raises \<^verbatim>\<open>ValueError\<close>.
\<close>

fun add_lists :: "real list \<Rightarrow> real list \<Rightarrow> real list" where
  "add_lists [] v = v"
| "add_lists u [] = u"
| "add_lists (x # u) (y # v) = (x + y) # add_lists u v"

fun conv_full :: "real list \<Rightarrow> real list \<Rightarrow> real list" where
  "conv_full [] v = []"
| "conv_full [x] v = map ((*) x) v"
| "conv_full (x # u) v = add_lists (map ((*) x) v) (0 # conv_full u v)"

definition np_convolve :: "real list \<Rightarrow> real list \<Rightarrow> error + real list" where
  "np_convolve a v = (if a = [] \<or> v = [] then Inl ValueError else Inr (conv_full a v))"

subsection \<open>Burg's method, the instance of the linear-prediction routine\<close>

text \<open>
  \<^verbatim>\<open>librosa.lpc(y, order)\<close> rejects an order below 1 and then runs Burg's recursion.
  The two coefficient arrays are swapped at each order and the current one is overwritten
  in place at the indices \<open>1..i+1\<close>, with \<^verbatim>\<open>ar_coeffs_prev[i - j + 1]\<close> read at the
  index \<open>i + 1 - j\<close>; the forward and backward prediction errors lose one sample per
  order; the denominator follows Marple's recursion, and a denominator that is not
  positive is the numerical error that the routine raises. Reading the ends of an empty
  error vector is an \<open>IndexError\<close>.
\<close>

fun lpc_loop :: "nat \<Rightarrow> nat \<Rightarrow> real list \<Rightarrow> real list \<Rightarrow> real list \<Rightarrow> real list \<Rightarrow> real
                 \<Rightarrow> error + real list" where
  "lpc_loop 0 i ar_coeffs ar_coeffs_prev fwd bwd den = Inr ar_coeffs"
| "lpc_loop (Suc n) i ar_coeffs ar_coeffs_prev fwd bwd den =
     (if den \<le> 0 then Inl DegenerateFrameError
      else
        let reflect_coeff = (- 2) * dot bwd fwd / den;
            ar_new = foldl (\<lambda>ar j. ar[j := ar_coeffs ! j + reflect_coeff * ar_coeffs ! (i + 1 - j)])
                       ar_coeffs_prev [1..<i + 2];
            fwd_new = map2 (\<lambda>f b. f + reflect_coeff * b) fwd bwd;
            bwd_new = map2 (\<lambda>f b. b + reflect_coeff * f) fwd bwd
        in if fwd_new = [] then Inl IndexError
           else
             let q = 1 - reflect_coeff\<^sup>2;
                 den_new = q * den - (last bwd_new)\<^sup>2 - (hd fwd_new)\<^sup>2
             in lpc_loop n (i + 1) ar_new ar_coeffs (tl fwd_new) (butlast bwd_new) den_new)"

definition librosa_lpc :: "real list \<Rightarrow> int \<Rightarrow> error + real list" where
  "librosa_lpc y order =
     (if order < 1 then Inl ParameterError
      else
        let ar = 1 # replicate (nat order) 0;
            fwd = tl y;
            bwd = butlast y
        in lpc_loop (nat order) 0 ar ar fwd bwd (dot fwd fwd + dot bwd bwd))"

subsection \<open>The notebook's globals\<close>

text \<open>
  The first five fields are the inputs assigned by the parameter cell
  (\<^verbatim>\<open>s_gvl\<close>, \<^verbatim>\<open>nv\<close>, \<^verbatim>\<open>ng\<close>, \<^verbatim>\<open>d\<close>, \<^verbatim>\<open>win\<close>); the others are assigned by the
  later cells. A field that has not been assigned yet holds whatever an earlier run left
  there. The loop counter is only printed and is not part of the record.
\<close>

record notebook =
  s_gvl :: "real list"
  nv :: int
  ng :: int
  d :: real
  win :: "real list"
  Lpf :: int
  x_gvl :: "real list"
  idx_pf :: "int list"
  al :: "real list"
  s_gv :: "real list"
  x_gv :: "real list"
  ag1 :: "real list"
  x_v1x :: "real list"
  s_v1x :: "real list"
  ag1x :: "real list"
  x_g1 :: "real list"
  s_g1 :: "real list"
  ag :: "real list"
  x_v :: "real list"
  s_v :: "real list"
  av :: "real list"

subsection \<open>The cells\<close>

text \<open>Default parameters: an empty \<^verbatim>\<open>win\<close> is replaced by the Hann window of the frame's length.\<close>

definition cell_defaults :: "notebook \<Rightarrow> notebook" where
  "cell_defaults st =
     (if length (win st) = 0 then st\<lparr>win := np_hanning (int (length (s_gvl st)))\<rparr> else st)"

text \<open>Addition of the pre-frame: a ramp of \<open>nv + 1\<close> samples from \<open>-s_gvl[0]\<close> to \<open>s_gvl[0]\<close>.\<close>

definition cell_preframe :: "notebook \<Rightarrow> error + notebook" where
  "cell_preframe st =
     (let lpf = nv st + 1 in
      bindE (getitem (s_gvl st) 0) (\<lambda>s0.
      bindE (np_linspace (- s0) s0 lpf) (\<lambda>ramp.
        let x = ramp @ s_gvl st
        in Inr (st\<lparr>Lpf := lpf, x_gvl := x, idx_pf := np_arange lpf (int (length x))\<rparr>))))"

text \<open>Cancel the lip radiation contribution: leaky integration with \<open>1 / (1 - d z\<^sup>-\<^sup>1)\<close>.\<close>

definition cell_lip :: "notebook \<Rightarrow> error + notebook" where
  "cell_lip st =
     (let a = [1, - d st] in
      bindE (lfilter [1] a (s_gvl st)) (\<lambda>sg.
      bindE (lfilter [1] a (x_gvl st)) (\<lambda>xg.
        Inr (st\<lparr>al := a, s_gv := sg, x_gv := xg\<rparr>))))"

text \<open>
  Gross glottis estimation. \<open>gross_first\<close> is the first first-order fit on the windowed
  integrated frame, \<open>gross_body\<close> the body of \<^verbatim>\<open>for i in range(ng)\<close>, which runs
  \<open>nat ng\<close> times.
\<close>

definition gross_body :: "(real list \<Rightarrow> int \<Rightarrow> error + real list) \<Rightarrow> notebook \<Rightarrow> error + notebook" where
  "gross_body lpc st =
     bindE (lfilter (ag1 st) [1] (x_gv st)) (\<lambda>xv.
     bindE (take_idx xv (idx_pf st)) (\<lambda>sv.
     bindE (np_multiply sv (win st)) (\<lambda>w.
     bindE (lpc w 1) (\<lambda>a1x.
     bindE (np_convolve (ag1 st) a1x) (\<lambda>g.
       Inr (st\<lparr>x_v1x := xv, s_v1x := sv, ag1x := a1x, ag1 := g\<rparr>))))))"

fun gross_loop :: "(real list \<Rightarrow> int \<Rightarrow> error + real list) \<Rightarrow> nat \<Rightarrow> notebook \<Rightarrow> error + notebook" where
  "gross_loop lpc 0 st = Inr st"
| "gross_loop lpc (Suc n) st = bindE (gross_body lpc st) (gross_loop lpc n)"

definition gross_first :: "(real list \<Rightarrow> int \<Rightarrow> error + real list) \<Rightarrow> notebook \<Rightarrow> error + notebook" where
  "gross_first lpc st =
     bindE (np_multiply (s_gv st) (win st)) (\<lambda>w.
     bindE (lpc w 1) (\<lambda>a.
       Inr (st\<lparr>ag1 := a\<rparr>)))"

definition cell_gross :: "(real list \<Rightarrow> int \<Rightarrow> error + real list) \<Rightarrow> notebook \<Rightarrow> error + notebook" where
  "cell_gross lpc st = bindE (gross_first lpc st) (gross_loop lpc (nat (ng st)))"

text \<open>Fine glottis estimation: remove the gross cascade, fit one filter of order \<open>ng\<close>.\<close>

definition cell_fine_glottis :: "(real list \<Rightarrow> int \<Rightarrow> error + real list) \<Rightarrow> notebook \<Rightarrow> error + notebook" where
  "cell_fine_glottis lpc st =
     bindE (lfilter (ag1 st) [1] (x_gv st)) (\<lambda>xg.
     bindE (take_idx xg (idx_pf st)) (\<lambda>sg.
     bindE (np_multiply sg (win st)) (\<lambda>w.
     bindE (lpc w (ng st)) (\<lambda>a.
       Inr (st\<lparr>x_g1 := xg, s_g1 := sg, ag := a\<rparr>)))))"

text \<open>Fine vocal tract estimation: remove the fine glottis filter, fit one filter of order \<open>nv\<close>.\<close>

definition cell_fine_vocal_tract :: "(real list \<Rightarrow> int \<Rightarrow> error + real list) \<Rightarrow> notebook \<Rightarrow> error + notebook" where
  "cell_fine_vocal_tract lpc st =
     bindE (lfilter (ag st) [1] (x_gv st)) (\<lambda>xv.
     bindE (take_idx xv (idx_pf st)) (\<lambda>sv.
     bindE (np_multiply sv (win st)) (\<lambda>w.
     bindE (lpc w (nv st)) (\<lambda>a.
       Inr (st\<lparr>x_v := xv, s_v := sv, av := a\<rparr>)))))"

text \<open>The whole notebook after the parameter cell, and the triple its last cell displays.\<close>

definition gfmiaif :: "(real list \<Rightarrow> int \<Rightarrow> error + real list) \<Rightarrow> notebook \<Rightarrow> error + notebook" where
  "gfmiaif lpc st =
     bindE (cell_preframe (cell_defaults st)) (\<lambda>st1.
     bindE (cell_lip st1) (\<lambda>st2.
     bindE (cell_gross lpc st2) (\<lambda>st3.
     bindE (cell_fine_glottis lpc st3) (\<lambda>st4.
       cell_fine_vocal_tract lpc st4))))"

definition outputs :: "notebook \<Rightarrow> real list \<times> real list \<times> real list" where
  "outputs st = (av st, ag st, al st)"

text \<open>
  The parameter cell: it assigns the five inputs and leaves every other global as it was.
\<close>

definition cell_params :: "real list \<Rightarrow> int \<Rightarrow> int \<Rightarrow> real \<Rightarrow> real list \<Rightarrow> notebook \<Rightarrow> notebook" where
  "cell_params s n g c w st = st\<lparr>s_gvl := s, nv := n, ng := g, d := c, win := w\<rparr>"

text \<open>A notebook in which no cell has run yet.\<close>

definition fresh :: notebook where
  "fresh = \<lparr>s_gvl = [], nv = 0, ng = 0, d = 0, win = [], Lpf = 0, x_gvl = [], idx_pf = [],
            al = [], s_gv = [], x_gv = [], ag1 = [], x_v1x = [], s_v1x = [], ag1x = [],
            x_g1 = [], s_g1 = [], ag = [], x_v = [], s_v = [], av = []\<rparr>"

subsection \<open>What the specification says of the linear-prediction routine\<close>

text \<open>
  Modelled from the spec: \<^verbatim>\<open>librosa.lpc\<close> is a library routine whose source is not part of
  the repository. The specification gives its contract: it fails on an all-zero input,
  otherwise it returns a monic all-pole filter of the requested order, that is
  \<open>order + 1\<close> coefficients the first of which is 1.
\<close>

definition lpc_returns_monic :: "(real list \<Rightarrow> int \<Rightarrow> error + real list) \<Rightarrow> bool" where
  "lpc_returns_monic lpc \<longleftrightarrow>
     (\<forall>y order a. lpc y order = Inr a \<longrightarrow> (\<exists>r. a = 1 # r \<and> int (length r) = order))"

definition lpc_fails_degenerate :: "(real list \<Rightarrow> int \<Rightarrow> error + real list) \<Rightarrow> bool" where
  "lpc_fails_degenerate lpc \<longleftrightarrow>
     (\<forall>y order. 1 \<le> order \<and> (\<forall>v \<in> set y. v = 0) \<longrightarrow> lpc y order = Inl DegenerateFrameError)"

text \<open>
  The library documents the order as an integer greater than 0 and rejects any other on
  entry.
\<close>

definition lpc_rejects_order :: "(real list \<Rightarrow> int \<Rightarrow> error + real list) \<Rightarrow> bool" where
  "lpc_rejects_order lpc \<longleftrightarrow> (\<forall>y order. order < 1 \<longrightarrow> lpc y order = Inl ParameterError)"

subsection \<open>Auxiliary notions\<close>

text \<open>The globals that the gross estimation, loop included, never assigns.\<close>

definition loop_frame :: "notebook \<Rightarrow> notebook \<Rightarrow> bool" where
  "loop_frame st st' \<longleftrightarrow>
     s_gvl st' = s_gvl st \<and> nv st' = nv st \<and> ng st' = ng st \<and> d st' = d st \<and> win st' = win st \<and>
     Lpf st' = Lpf st \<and> x_gvl st' = x_gvl st \<and> idx_pf st' = idx_pf st \<and>
     al st' = al st \<and> s_gv st' = s_gv st \<and> x_gv st' = x_gv st"

text \<open>The cells up to the entry of the loop.\<close>

definition loop_entry :: "(real list \<Rightarrow> int \<Rightarrow> error + real list) \<Rightarrow> notebook \<Rightarrow> error + notebook" where
  "loop_entry lpc st =
     bindE (cell_preframe (cell_defaults st)) (\<lambda>st1.
     bindE (cell_lip st1) (gross_first lpc))"

text \<open>The five inputs of a run.\<close>

definition inputs :: "notebook \<Rightarrow> real list \<times> int \<times> int \<times> real \<times> real list" where
  "inputs st = (s_gvl st, nv st, ng st, d st, win st)"

text \<open>
  What each stage of a run reads from the globals: the later cells read nothing else of
  what the earlier cells or an earlier run assigned.
\<close>

definition view_preframed :: "notebook \<Rightarrow> real list \<times> int \<times> int \<times> real \<times> real list \<times> real list \<times> int list" where
  "view_preframed st = (s_gvl st, nv st, ng st, d st, win st, x_gvl st, idx_pf st)"

definition view_integrated :: "notebook \<Rightarrow> int \<times> int \<times> real list \<times> int list \<times> real list \<times> real list \<times> real list" where
  "view_integrated st = (nv st, ng st, win st, idx_pf st, al st, s_gv st, x_gv st)"

definition view_gross :: "notebook \<Rightarrow> int \<times> int \<times> real list \<times> int list \<times> real list \<times> real list \<times> real list" where
  "view_gross st = (nv st, ng st, win st, idx_pf st, al st, x_gv st, ag1 st)"

definition view_glottis :: "notebook \<Rightarrow> int \<times> real list \<times> int list \<times> real list \<times> real list \<times> real list" where
  "view_glottis st = (nv st, win st, idx_pf st, al st, x_gv st, ag st)"

text \<open>The energy of a signal, and the sum of the magnitudes of a filter's coefficients.\<close>

definition energy :: "real list \<Rightarrow> real" where
  "energy v = sum_list (map (\<lambda>t. t\<^sup>2) v)"

definition abs_sum :: "real list \<Rightarrow> real" where
  "abs_sum g = sum_list (map abs g)"

text \<open>
  The inverse filtering step as the specification words it: the cascade \<open>g\<close> as the
  denominator and \<open>[1]\<close> as the numerator, then the first \<open>Lpf\<close> samples dropped.
\<close>

definition spec_residual :: "real list \<Rightarrow> real list \<Rightarrow> nat \<Rightarrow> error + real list" where
  "spec_residual g x lpf = bindE (lfilter [1] g x) (\<lambda>r. Inr (drop lpf r))"

text \<open>
  What the cells before the loop establish and the loop keeps: the pre-frame has
  \<open>Lpf \<ge> 0\<close> samples, \<open>idx_pf\<close> lists the positions after it, and the padded integrated
  signal has \<open>Lpf + n\<close> samples.
\<close>

definition preframed :: "nat \<Rightarrow> notebook \<Rightarrow> bool" where
  "preframed n st \<longleftrightarrow>
     0 \<le> Lpf st \<and> idx_pf st = np_arange (Lpf st) (int (length (x_gv st))) \<and>
     length (x_gv st) = nat (Lpf st) + n"

text \<open>
  The residual \<^verbatim>\<open>s_v1x\<close> of the first iteration of the loop, as the notebook computes it
  and as the specification words it.
\<close>

definition first_residual :: "(real list \<Rightarrow> int \<Rightarrow> error + real list) \<Rightarrow> notebook \<Rightarrow> error + real list" where
  "first_residual lpc st = bindE (loop_entry lpc st) (\<lambda>st1. map_sum id s_v1x (gross_body lpc st1))"

definition spec_first_residual :: "(real list \<Rightarrow> int \<Rightarrow> error + real list) \<Rightarrow> notebook \<Rightarrow> error + real list" where
  "spec_first_residual lpc st =
     bindE (loop_entry lpc st) (\<lambda>st1. spec_residual (ag1 st1) (x_gv st1) (nat (Lpf st1)))"

text \<open>Small frames on which runs are evaluated.\<close>

definition frame_a :: notebook where
  "frame_a = cell_params [2, - 1] 1 1 (1/2) [1, 1] fresh"

definition frame_default :: notebook where
  "frame_default = cell_params [2, - 1] 1 1 (1/2) [] fresh"

definition frame_zero :: notebook where
  "frame_zero = cell_params [0, 0, 0] 1 1 (1/2) [1, 1, 1] fresh"

definition frame_b :: notebook where
  "frame_b = cell_params [1, 2] 1 1 (1/2) [1, 1] fresh"

text \<open>\<open>d = 2\<close>; a window of one weight on a frame of two samples.\<close>

definition frame_d2 :: notebook where
  "frame_d2 = cell_params [2, - 1] 1 1 2 [1, 1] fresh"

definition frame_w1 :: notebook where
  "frame_w1 = cell_params [2, - 1] 1 1 (1/2) [3] fresh"

text \<open>An empty frame; \<open>nv = -2\<close>; a window of three weights on two samples; \<open>ng = 0\<close>.\<close>

definition frame_empty :: notebook where
  "frame_empty = cell_params [] 1 1 (1/2) [] fresh"

definition frame_nv :: notebook where
  "frame_nv = cell_params [2, - 1] (- 2) 1 (1/2) [1, 1] fresh"

definition frame_w3 :: notebook where
  "frame_w3 = cell_params [2, - 1] 1 1 (1/2) [1, 1, 1] fresh"

definition frame_ng :: notebook where
  "frame_ng = cell_params [2, - 1] 1 0 (1/2) [1, 1] fresh"

section \<open>Basic facts\<close>

subsection \<open>Error propagation and what each cell assigns\<close>

lemma bindE_Inr_iff: "bindE m f = Inr y \<longleftrightarrow> (\<exists>x. m = Inr x \<and> f x = Inr y)"
  by (cases m) (simp_all add: bindE_def)

lemma bindE_Inl_iff: "bindE m f = Inl e \<longleftrightarrow> m = Inl e \<or> (\<exists>x. m = Inr x \<and> f x = Inl e)"
  by (cases m) (simp_all add: bindE_def)

lemma bindE_simps: "bindE (Inl e) f = Inl e" "bindE (Inr x) f = f x"
  by (simp_all add: bindE_def)

lemma cell_preframe_Inr:
  assumes "cell_preframe st = Inr st'"
  obtains ramp where "s_gvl st \<noteq> []"
    and "np_linspace (- hd (s_gvl st)) (hd (s_gvl st)) (nv st + 1) = Inr ramp"
    and "st' = st\<lparr>Lpf := nv st + 1, x_gvl := ramp @ s_gvl st,
                  idx_pf := np_arange (nv st + 1) (int (length (ramp @ s_gvl st)))\<rparr>"
  using assms
  by (cases "s_gvl st") (auto simp: cell_preframe_def bindE_Inr_iff getitem_def Let_def)

lemma cell_lip_Inr:
  assumes "cell_lip st = Inr st'"
  obtains sg xg where "lfilter [1] [1, - d st] (s_gvl st) = Inr sg"
    and "lfilter [1] [1, - d st] (x_gvl st) = Inr xg"
    and "st' = st\<lparr>al := [1, - d st], s_gv := sg, x_gv := xg\<rparr>"
  using assms by (auto simp: cell_lip_def bindE_Inr_iff Let_def)

lemma gross_first_Inr:
  assumes "gross_first lpc st = Inr st'"
  obtains w a where "np_multiply (s_gv st) (win st) = Inr w" and "lpc w 1 = Inr a"
    and "st' = st\<lparr>ag1 := a\<rparr>"
  using assms by (auto simp: gross_first_def bindE_Inr_iff)

lemma gross_body_Inr:
  assumes "gross_body lpc st = Inr st'"
  obtains xv sv w a1x g where "lfilter (ag1 st) [1] (x_gv st) = Inr xv"
    and "take_idx xv (idx_pf st) = Inr sv"
    and "np_multiply sv (win st) = Inr w"
    and "lpc w 1 = Inr a1x"
    and "np_convolve (ag1 st) a1x = Inr g"
    and "st' = st\<lparr>x_v1x := xv, s_v1x := sv, ag1x := a1x, ag1 := g\<rparr>"
  using assms by (auto simp: gross_body_def bindE_Inr_iff)

lemma cell_fine_glottis_Inr:
  assumes "cell_fine_glottis lpc st = Inr st'"
  obtains xg sg w a where "lfilter (ag1 st) [1] (x_gv st) = Inr xg"
    and "take_idx xg (idx_pf st) = Inr sg"
    and "np_multiply sg (win st) = Inr w"
    and "lpc w (ng st) = Inr a"
    and "st' = st\<lparr>x_g1 := xg, s_g1 := sg, ag := a\<rparr>"
  using assms by (auto simp: cell_fine_glottis_def bindE_Inr_iff)

lemma cell_fine_vocal_tract_Inr:
  assumes "cell_fine_vocal_tract lpc st = Inr st'"
  obtains xv sv w a where "lfilter (ag st) [1] (x_gv st) = Inr xv"
    and "take_idx xv (idx_pf st) = Inr sv"
    and "np_multiply sv (win st) = Inr w"
    and "lpc w (nv st) = Inr a"
    and "st' = st\<lparr>x_v := xv, s_v := sv, av := a\<rparr>"
  using assms by (auto simp: cell_fine_vocal_tract_def bindE_Inr_iff)

lemma gross_body_frame: "gross_body lpc st = Inr st' \<Longrightarrow> loop_frame st st'"
  by (erule gross_body_Inr) (simp add: loop_frame_def)

lemma gross_loop_frame: "gross_loop lpc n st = Inr st' \<Longrightarrow> loop_frame st st'"
proof (induction n arbitrary: st)
  case 0
  then show ?case by (simp add: loop_frame_def)
next
  case (Suc n)
  then obtain st1 where b: "gross_body lpc st = Inr st1" and l: "gross_loop lpc n st1 = Inr st'"
    by (auto simp: bindE_Inr_iff)
  from gross_body_frame[OF b] Suc.IH[OF l] show ?case
    by (simp add: loop_frame_def)
qed

lemma cell_gross_frame: "cell_gross lpc st = Inr st' \<Longrightarrow> loop_frame st st'"
proof -
  assume "cell_gross lpc st = Inr st'"
  then obtain st1 where f: "gross_first lpc st = Inr st1"
    and l: "gross_loop lpc (nat (ng st)) st1 = Inr st'"
    by (auto simp: cell_gross_def bindE_Inr_iff)
  from f have "loop_frame st st1"
    by (auto elim!: gross_first_Inr simp: loop_frame_def)
  with gross_loop_frame[OF l] show ?thesis
    by (simp add: loop_frame_def)
qed

lemma gfmiaif_Inr:
  assumes "gfmiaif lpc st = Inr st'"
  obtains st1 st2 st3 st4 where "cell_preframe (cell_defaults st) = Inr st1"
    and "cell_lip st1 = Inr st2" and "cell_gross lpc st2 = Inr st3"
    and "cell_fine_glottis lpc st3 = Inr st4" and "cell_fine_vocal_tract lpc st4 = Inr st'"
  using assms by (auto simp: gfmiaif_def bindE_Inr_iff)

lemma cell_defaults_inputs:
  "s_gvl (cell_defaults st) = s_gvl st" "nv (cell_defaults st) = nv st"
  "ng (cell_defaults st) = ng st" "d (cell_defaults st) = d st"
  by (simp_all add: cell_defaults_def)


lemma run_keeps_orders:
  assumes "gfmiaif lpc st = Inr st'"
  obtains st3 st4 where "cell_fine_glottis lpc st3 = Inr st4"
    and "cell_fine_vocal_tract lpc st4 = Inr st'"
    and "ng st3 = ng st" and "nv st4 = nv st" and "al st4 = [1, - d st]"
proof -
  from assms obtain st1 st2 st3 st4 where 1: "cell_preframe (cell_defaults st) = Inr st1"
    and 2: "cell_lip st1 = Inr st2" and 3: "cell_gross lpc st2 = Inr st3"
    and 4: "cell_fine_glottis lpc st3 = Inr st4" and 5: "cell_fine_vocal_tract lpc st4 = Inr st'"
    by (rule gfmiaif_Inr)
  from 1 have "nv st1 = nv st \<and> ng st1 = ng st \<and> d st1 = d st"
    by (auto elim!: cell_preframe_Inr simp: cell_defaults_inputs)
  with 2 have "nv st2 = nv st \<and> ng st2 = ng st \<and> al st2 = [1, - d st]"
    by (auto elim!: cell_lip_Inr)
  with cell_gross_frame[OF 3] have a: "nv st3 = nv st \<and> ng st3 = ng st \<and> al st3 = [1, - d st]"
    by (simp add: loop_frame_def)
  with 4 have "nv st4 = nv st \<and> al st4 = [1, - d st]"
    by (auto elim!: cell_fine_glottis_Inr)
  with a 4 5 show ?thesis
    using that by blast
qed


subsection \<open>Burg's recursion meets the contract\<close>

lemma foldl_update_length: "length (foldl (\<lambda>ar j. ar[j := f j]) a js) = length a"
  by (induction js arbitrary: a) simp_all

lemma foldl_update_nth0: "0 \<notin> set js \<Longrightarrow> foldl (\<lambda>ar j. ar[j := f j]) a js ! 0 = a ! 0"
  by (induction js arbitrary: a) auto

lemma lpc_loop_shape:
  "lpc_loop n i ar arp fwd bwd den = Inr a \<Longrightarrow> length ar = m \<Longrightarrow> length arp = m \<Longrightarrow>
   ar ! 0 = 1 \<Longrightarrow> arp ! 0 = 1 \<Longrightarrow> length a = m \<and> a ! 0 = 1"
proof (induction n arbitrary: i ar arp fwd bwd den)
  case 0
  then show ?case by simp
next
  case (Suc n)
  let ?k = "(- 2) * dot bwd fwd / den"
  let ?new = "foldl (\<lambda>a j. a[j := ar ! j + ?k * ar ! (i + 1 - j)]) arp [1..<i + 2]"
  from Suc.prems(1) obtain f b dn where
    rec: "lpc_loop n (i + 1) ?new ar f b dn = Inr a"
    by (auto simp: Let_def split: if_splits)
  have "length ?new = m"
    using Suc.prems(3) by (simp add: foldl_update_length)
  moreover have "?new ! 0 = 1"
    using Suc.prems(5) by (simp add: foldl_update_nth0)
  ultimately show ?case
    using Suc.IH[OF rec] Suc.prems(2,4) by simp
qed

lemma librosa_lpc_monic: "lpc_returns_monic librosa_lpc"
  unfolding lpc_returns_monic_def
proof (intro allI impI)
  fix y order a
  assume r: "librosa_lpc y order = Inr a"
  then have o: "1 \<le> order"
    by (simp add: librosa_lpc_def split: if_splits)
  let ?ar = "1 # replicate (nat order) (0::real)"
  from r o have "lpc_loop (nat order) 0 ?ar ?ar (tl y) (butlast y)
                   (dot (tl y) (tl y) + dot (butlast y) (butlast y)) = Inr a"
    by (simp add: librosa_lpc_def Let_def)
  from lpc_loop_shape[OF this, of "nat order + 1"]
  have "length a = nat order + 1" and "a ! 0 = 1"
    by simp_all
  then show "\<exists>r. a = 1 # r \<and> int (length r) = order"
    using o by (cases a) auto
qed

lemma dot_zero: "\<forall>v \<in> set u. v = 0 \<Longrightarrow> dot u w = 0"
  unfolding dot_def by (induction u arbitrary: w) (auto simp: zip_Cons1 split: list.splits)

lemma librosa_lpc_degenerate: "lpc_fails_degenerate librosa_lpc"
  unfolding lpc_fails_degenerate_def
proof (intro allI impI)
  fix y :: "real list" and order :: int
  assume a: "1 \<le> order \<and> (\<forall>v \<in> set y. v = 0)"
  then obtain n where n: "nat order = Suc n"
    by (cases "nat order") auto
  from a have "\<forall>v \<in> set (tl y). v = 0" "\<forall>v \<in> set (butlast y). v = 0"
    by (cases y; auto dest: in_set_butlastD)+
  then have "dot (tl y) (tl y) + dot (butlast y) (butlast y) = 0"
    by (simp add: dot_zero)
  with a n show "librosa_lpc y order = Inl DegenerateFrameError"
    by (simp add: librosa_lpc_def Let_def)
qed

lemma librosa_lpc_rejects: "lpc_rejects_order librosa_lpc"
  by (simp add: lpc_rejects_order_def librosa_lpc_def)

subsection \<open>Each stage reads only what the stage before it produced\<close>

lemma bindE_view:
  assumes "map_sum id p m1 = map_sum id p m2"
    and "\<And>x y. p x = p y \<Longrightarrow> map_sum id q (f x) = map_sum id q (g y)"
  shows "map_sum id q (bindE m1 f) = map_sum id q (bindE m2 g)"
  using assms by (cases m1; cases m2) (simp_all add: bindE_def)

lemma bindE_same:
  assumes "\<And>x. map_sum id q (f x) = map_sum id q (g x)"
  shows "map_sum id q (bindE m f) = map_sum id q (bindE m g)"
  using assms by (cases m) (simp_all add: bindE_def)

lemma cell_preframe_view:
  assumes "inputs a = inputs b"
  shows "map_sum id view_preframed (cell_preframe (cell_defaults a)) =
         map_sum id view_preframed (cell_preframe (cell_defaults b))"
proof -
  from assms have e: "s_gvl a = s_gvl b" "nv a = nv b" "ng a = ng b" "d a = d b" "win a = win b"
    by (simp_all add: inputs_def)
  have c: "s_gvl (cell_defaults a) = s_gvl (cell_defaults b)"
    "nv (cell_defaults a) = nv (cell_defaults b)" "ng (cell_defaults a) = ng (cell_defaults b)"
    "d (cell_defaults a) = d (cell_defaults b)" "win (cell_defaults a) = win (cell_defaults b)"
    using e by (simp_all add: cell_defaults_def)
  show ?thesis
    unfolding cell_preframe_def Let_def c
    by (intro bindE_same) (simp add: view_preframed_def c)
qed

lemma cell_lip_view:
  assumes "view_preframed a = view_preframed b"
  shows "map_sum id view_integrated (cell_lip a) = map_sum id view_integrated (cell_lip b)"
proof -
  from assms have e: "s_gvl a = s_gvl b" "nv a = nv b" "ng a = ng b" "d a = d b" "win a = win b"
    "x_gvl a = x_gvl b" "idx_pf a = idx_pf b"
    by (simp_all add: view_preframed_def)
  show ?thesis
    unfolding cell_lip_def Let_def e
    by (intro bindE_same) (simp add: view_integrated_def e)
qed

lemma gross_first_view:
  assumes "view_integrated a = view_integrated b"
  shows "map_sum id view_gross (gross_first lpc a) = map_sum id view_gross (gross_first lpc b)"
proof -
  from assms have e: "nv a = nv b" "ng a = ng b" "win a = win b" "idx_pf a = idx_pf b"
    "al a = al b" "s_gv a = s_gv b" "x_gv a = x_gv b"
    by (simp_all add: view_integrated_def)
  show ?thesis
    unfolding gross_first_def e
    by (intro bindE_same) (simp add: view_gross_def e)
qed

lemma gross_body_view:
  assumes "view_gross a = view_gross b"
  shows "map_sum id view_gross (gross_body lpc a) = map_sum id view_gross (gross_body lpc b)"
proof -
  from assms have e: "nv a = nv b" "ng a = ng b" "win a = win b" "idx_pf a = idx_pf b"
    "al a = al b" "x_gv a = x_gv b" "ag1 a = ag1 b"
    by (simp_all add: view_gross_def)
  show ?thesis
    unfolding gross_body_def e
    by (intro bindE_same) (simp add: view_gross_def e)
qed

lemma gross_loop_view:
  "view_gross a = view_gross b \<Longrightarrow>
   map_sum id view_gross (gross_loop lpc n a) = map_sum id view_gross (gross_loop lpc n b)"
proof (induction n arbitrary: a b)
  case 0
  then show ?case by simp
next
  case (Suc n)
  show ?case
    unfolding gross_loop.simps
    by (rule bindE_view[OF gross_body_view[OF Suc.prems]]) (rule Suc.IH)
qed

lemma cell_gross_view:
  assumes "view_integrated a = view_integrated b"
  shows "map_sum id view_gross (cell_gross lpc a) = map_sum id view_gross (cell_gross lpc b)"
proof -
  from assms have e: "ng a = ng b"
    by (simp add: view_integrated_def)
  show ?thesis
    unfolding cell_gross_def e
    by (rule bindE_view[OF gross_first_view[OF assms]]) (rule gross_loop_view)
qed

lemma cell_fine_glottis_view:
  assumes "view_gross a = view_gross b"
  shows "map_sum id view_glottis (cell_fine_glottis lpc a) =
         map_sum id view_glottis (cell_fine_glottis lpc b)"
proof -
  from assms have e: "nv a = nv b" "ng a = ng b" "win a = win b" "idx_pf a = idx_pf b"
    "al a = al b" "x_gv a = x_gv b" "ag1 a = ag1 b"
    by (simp_all add: view_gross_def)
  show ?thesis
    unfolding cell_fine_glottis_def e
    by (intro bindE_same) (simp add: view_glottis_def e)
qed

lemma cell_fine_vocal_tract_view:
  assumes "view_glottis a = view_glottis b"
  shows "map_sum id outputs (cell_fine_vocal_tract lpc a) =
         map_sum id outputs (cell_fine_vocal_tract lpc b)"
proof -
  from assms have e: "nv a = nv b" "win a = win b" "idx_pf a = idx_pf b"
    "al a = al b" "x_gv a = x_gv b" "ag a = ag b"
    by (simp_all add: view_glottis_def)
  show ?thesis
    unfolding cell_fine_vocal_tract_def e
    by (intro bindE_same) (simp add: outputs_def e)
qed


subsection \<open>The default window\<close>

lemma length_np_hanning: "length (np_hanning (int n)) = n"
  by (simp add: np_hanning_def)

lemma cell_defaults_idem: "cell_defaults (cell_defaults st) = cell_defaults st"
  by (auto simp: cell_defaults_def np_hanning_def)

subsection \<open>Filters and windows on all-zero signals\<close>

lemma dot_zero_right: "set w \<subseteq> {0} \<Longrightarrow> dot u w = 0"
  unfolding dot_def by (induction u arbitrary: w) (auto simp: zip_Cons1 split: list.splits)

lemma length_lfilter_run: "length (lfilter_run b a xh yh xs) = length xs"
  by (induction xs arbitrary: xh yh) (simp_all add: Let_def)

lemma lfilter_run_zero:
  "set xs \<subseteq> {0} \<Longrightarrow> set xh \<subseteq> {0} \<Longrightarrow> set yh \<subseteq> {0} \<Longrightarrow>
   set (lfilter_run b a xh yh xs) \<subseteq> {0}"
proof (induction xs arbitrary: xh yh)
  case Nil
  show ?case by simp
next
  case (Cons x xs)
  from Cons.prems have x: "x = 0" and xs: "set xs \<subseteq> {0}"
    by simp_all
  have "dot b (x # xh) = 0"
    by (rule dot_zero_right) (simp add: x Cons.prems(2))
  moreover have "dot (tl a) yh = 0"
    by (rule dot_zero_right) (rule Cons.prems(3))
  ultimately have y: "(dot b (x # xh) - dot (tl a) yh) / hd a = 0"
    by simp
  have "set (lfilter_run b a (x # xh) (0 # yh) xs) \<subseteq> {0}"
    by (rule Cons.IH[OF xs]) (simp_all add: x Cons.prems(2,3))
  then show ?case
    by (simp add: Let_def y)
qed

lemma np_linspace_Inr:
  "np_linspace a b n = Inr r \<Longrightarrow> 0 \<le> n \<and> length r = nat n"
  by (auto simp: np_linspace_def split: if_splits)

lemma np_linspace_runs: "0 \<le> n \<Longrightarrow> \<exists>r. np_linspace a b n = Inr r"
  by (simp add: np_linspace_def)

lemma lfilter_integrate: "lfilter [1] [1, c] x = Inr (lfilter_run [1] [1, c] [] [] x)"
  by (simp add: lfilter_def)

lemma map2_zero: "set u \<subseteq> {0::real} \<Longrightarrow> set (map2 (*) u w) \<subseteq> {0}"
  by (auto dest!: set_zip_leftD)

text \<open>On a non-empty frame with \<open>nv \<ge> -1\<close> the pre-frame and the two integrations run.\<close>

lemma integration_runs:
  assumes ne: "s_gvl st \<noteq> []" and v: "- 1 \<le> nv st"
  obtains ramp where
    "np_linspace (- hd (s_gvl st)) (hd (s_gvl st)) (nv st + 1) = Inr ramp"
    "bindE (cell_preframe (cell_defaults st)) cell_lip =
       Inr ((cell_defaults st)\<lparr>Lpf := nv st + 1, x_gvl := ramp @ s_gvl st,
              idx_pf := np_arange (nv st + 1) (int (length (ramp @ s_gvl st))),
              al := [1, - d st],
              s_gv := lfilter_run [1] [1, - d st] [] [] (s_gvl st),
              x_gv := lfilter_run [1] [1, - d st] [] [] (ramp @ s_gvl st)\<rparr>)"
proof -
  from ne have h: "getitem (s_gvl st) 0 = Inr (hd (s_gvl st))"
    by (cases "s_gvl st") (simp_all add: getitem_def)
  from v obtain ramp where l: "np_linspace (- hd (s_gvl st)) (hd (s_gvl st)) (nv st + 1) = Inr ramp"
    using np_linspace_runs[of "nv st + 1" "- hd (s_gvl st)" "hd (s_gvl st)"] by auto
  let ?x = "ramp @ s_gvl st"
  let ?st1 = "(cell_defaults st)\<lparr>Lpf := nv st + 1, x_gvl := ?x,
                 idx_pf := np_arange (nv st + 1) (int (length ?x))\<rparr>"
  have 1: "cell_preframe (cell_defaults st) = Inr ?st1"
    using h l by (simp add: cell_preframe_def cell_defaults_inputs bindE_simps Let_def)
  have 2: "cell_lip ?st1 =
      Inr (?st1\<lparr>al := [1, - d st], s_gv := lfilter_run [1] [1, - d st] [] [] (s_gvl st),
                 x_gv := lfilter_run [1] [1, - d st] [] [] ?x\<rparr>)"
    by (simp add: cell_lip_def cell_defaults_inputs lfilter_integrate bindE_simps Let_def)
  from 1 2 have "bindE (cell_preframe (cell_defaults st)) cell_lip =
      Inr (?st1\<lparr>al := [1, - d st], s_gv := lfilter_run [1] [1, - d st] [] [] (s_gvl st),
                 x_gv := lfilter_run [1] [1, - d st] [] [] ?x\<rparr>)"
    by (simp add: bindE_simps)
  with l show ?thesis
    by (rule that)
qed

subsection \<open>Removing the pre-ramp\<close>

lemma take_idx_upto:
  "0 \<le> a \<Longrightarrow> take_idx x [a..int (length x) - 1] = Inr (drop (nat a) x)"
proof (induction "nat (int (length x) - a)" arbitrary: a)
  case 0
  then have "[a..int (length x) - 1] = []" "drop (nat a) x = []"
    by simp_all
  then show ?case by simp
next
  case (Suc n)
  from Suc.hyps(2) Suc.prems have lt: "a < int (length x)" and a: "0 \<le> a"
    by linarith+
  then have "a \<le> int (length x) - 1"
    by simp
  then have u: "[a..int (length x) - 1] = a # [a + 1..int (length x) - 1]"
    by (rule upto_rec1)
  from lt a have g: "getitem x a = Inr (x ! nat a)"
    by (simp add: getitem_def)
  from Suc.hyps(2) a have "n = nat (int (length x) - (a + 1))"
    by linarith
  from Suc.hyps(1)[OF this] a
  have r: "take_idx x [a + 1..int (length x) - 1] = Inr (drop (nat (a + 1)) x)"
    by simp
  from a have s: "nat (a + 1) = Suc (nat a)"
    by linarith
  from lt a have "nat a < length x"
    by linarith
  then have "drop (nat a) x = x ! nat a # drop (nat (a + 1)) x"
    unfolding s by (rule Cons_nth_drop_Suc[symmetric])
  with u g r show ?case
    by (simp add: bindE_simps)
qed

lemma lfilter_run_fir_nth:
  "n < length xs \<Longrightarrow>
   lfilter_run b [1] xh yh xs ! n = dot b (rev (take (Suc n) xs) @ xh)"
proof (induction xs arbitrary: xh yh n)
  case Nil
  then show ?case by simp
next
  case (Cons x xs)
  show ?case
  proof (cases n)
    case 0
    then show ?thesis
      by (simp add: Let_def dot_def)
  next
    case (Suc m)
    with Cons.prems have "m < length xs"
      by simp
    from Cons.IH[OF this] Suc show ?thesis
      by (simp add: Let_def)
  qed
qed

lemma loop_entry_preframed:
  assumes "loop_entry lpc st0 = Inr st1"
  shows "preframed (length (s_gvl st0)) st1"
proof -
  from assms obtain sta stb where 1: "cell_preframe (cell_defaults st0) = Inr sta"
    and 2: "cell_lip sta = Inr stb" and 3: "gross_first lpc stb = Inr st1"
    by (auto simp: loop_entry_def bindE_Inr_iff)
  from 1 obtain ramp where
    l: "np_linspace (- hd (s_gvl (cell_defaults st0))) (hd (s_gvl (cell_defaults st0)))
          (nv (cell_defaults st0) + 1) = Inr ramp"
    and a: "sta = (cell_defaults st0)\<lparr>Lpf := nv (cell_defaults st0) + 1,
              x_gvl := ramp @ s_gvl (cell_defaults st0),
              idx_pf := np_arange (nv (cell_defaults st0) + 1)
                          (int (length (ramp @ s_gvl (cell_defaults st0))))\<rparr>"
    by (rule cell_preframe_Inr)
  from np_linspace_Inr[OF l] have n: "0 \<le> nv st0 + 1" "length ramp = nat (nv st0 + 1)"
    by (simp_all add: cell_defaults_inputs)
  from 2 obtain sg xg where x: "lfilter [1] [1, - d sta] (x_gvl sta) = Inr xg"
    and b: "stb = sta\<lparr>al := [1, - d sta], s_gv := sg, x_gv := xg\<rparr>"
    by (rule cell_lip_Inr)
  from x have "length xg = length (x_gvl sta)"
    by (auto simp: lfilter_def length_lfilter_run split: if_splits)
  with a b n have "preframed (length (s_gvl st0)) stb"
    by (simp add: preframed_def cell_defaults_inputs)
  with 3 show ?thesis
    by (auto elim!: gross_first_Inr simp: preframed_def)
qed

lemma loop_frame_preframed: "loop_frame st st' \<Longrightarrow> preframed n st \<Longrightarrow> preframed n st'"
  by (simp add: loop_frame_def preframed_def)

subsection \<open>The length of the gross cascade\<close>

lemma length_add_lists: "length (add_lists u v) = max (length u) (length v)"
  by (induction u v rule: add_lists.induct) simp_all

lemma length_conv_full: "a \<noteq> [] \<Longrightarrow> length (conv_full a v) = length a + length v - 1"
  by (induction a v rule: conv_full.induct) (simp_all add: length_add_lists)

lemma gross_body_length:
  assumes c: "lpc_returns_monic lpc" and b: "gross_body lpc st = Inr st'" and n: "ag1 st \<noteq> []"
  shows "length (ag1 st') = length (ag1 st) + 1"
proof -
  from b obtain w a1x g where "lpc w 1 = Inr a1x" and cv: "np_convolve (ag1 st) a1x = Inr g"
    and g: "ag1 st' = g"
    by (auto elim!: gross_body_Inr)
  with c have "length a1x = 2"
    unfolding lpc_returns_monic_def by fastforce
  with cv n have "length g = length (ag1 st) + 1"
    by (auto simp: np_convolve_def length_conv_full split: if_splits)
  with g show ?thesis by simp
qed

lemma gross_loop_length:
  "lpc_returns_monic lpc \<Longrightarrow> gross_loop lpc n st = Inr st' \<Longrightarrow> ag1 st \<noteq> [] \<Longrightarrow>
   length (ag1 st') = length (ag1 st) + n"
proof (induction n arbitrary: st)
  case 0
  then show ?case by simp
next
  case (Suc n)
  from Suc.prems(2) obtain st1 where b: "gross_body lpc st = Inr st1"
    and l: "gross_loop lpc n st1 = Inr st'"
    by (auto simp: bindE_Inr_iff)
  have 1: "length (ag1 st1) = length (ag1 st) + 1"
    by (rule gross_body_length[OF Suc.prems(1) b Suc.prems(3)])
  then have "ag1 st1 \<noteq> []"
    by auto
  from Suc.IH[OF Suc.prems(1) l this] 1 show ?case
    by simp
qed

subsection \<open>Energy of a filtered signal\<close>

lemma energy_simps: "energy [] = 0" "energy (x # v) = x\<^sup>2 + energy v"
  by (simp_all add: energy_def)

lemma energy_nonneg: "0 \<le> energy v"
  by (induction v) (simp_all add: energy_simps)

lemma energy_take_le: "energy (take n v) \<le> energy v"
proof (induction v arbitrary: n)
  case Nil
  show ?case by simp
next
  case (Cons x v)
  show ?case
  proof (cases n)
    case 0
    then show ?thesis by (simp add: energy_simps energy_nonneg)
  next
    case (Suc m)
    with Cons.IH[of m] show ?thesis by (simp add: energy_simps)
  qed
qed

lemma energy_drop_le: "energy (drop n v) \<le> energy v"
proof (induction v arbitrary: n)
  case Nil
  show ?case by simp
next
  case (Cons x v)
  show ?case
  proof (cases n)
    case 0
    then show ?thesis by simp
  next
    case (Suc m)
    have "energy (drop m v) \<le> energy v"
      by (rule Cons.IH)
    also have "\<dots> \<le> x\<^sup>2 + energy v"
      by simp
    finally show ?thesis
      using Suc by (simp add: energy_simps)
  qed
qed

lemma energy_scale: "energy (map ((*) c) v) = c\<^sup>2 * energy v"
  by (induction v) (simp_all add: energy_simps algebra_simps)

lemma dot_simps: "dot [] v = 0" "dot u [] = 0" "dot (x # u) (y # v) = x * y + dot u v"
  by (simp_all add: dot_def)

text \<open>The Cauchy-Schwarz inequality on lists.\<close>

lemma dot_square_le: "(dot u v)\<^sup>2 \<le> energy u * energy v"
proof (induction u v rule: list_induct2')
  case 1
  show ?case by (simp add: dot_simps energy_simps)
next
  case (2 x u)
  show ?case by (simp add: dot_simps energy_simps)
next
  case (3 y v)
  show ?case by (simp add: dot_simps energy_simps)
next
  case (4 x u y v)
  let ?S = "dot u v" and ?X = "energy u" and ?Y = "energy v"
  have X: "0 \<le> ?X" and Y: "0 \<le> ?Y"
    by (rule energy_nonneg)+
  have "0 \<le> (?X * y\<^sup>2 - ?Y * x\<^sup>2)\<^sup>2"
    by simp
  then have "4 * (?X * ?Y) * (x * y)\<^sup>2 \<le> (?X * y\<^sup>2 + ?Y * x\<^sup>2)\<^sup>2"
    by (simp add: power2_eq_square algebra_simps)
  moreover have "(2 * ?S * (x * y))\<^sup>2 \<le> 4 * (?X * ?Y) * (x * y)\<^sup>2"
    using mult_right_mono[OF "4.IH", of "4 * (x * y)\<^sup>2"]
    by (simp add: algebra_simps)
  ultimately have "(2 * ?S * (x * y))\<^sup>2 \<le> (?X * y\<^sup>2 + ?Y * x\<^sup>2)\<^sup>2"
    by linarith
  moreover have "0 \<le> ?X * y\<^sup>2 + ?Y * x\<^sup>2"
    using X Y by simp
  ultimately have m: "2 * ?S * (x * y) \<le> ?X * y\<^sup>2 + ?Y * x\<^sup>2"
    by (rule power2_le_imp_le)
  have "(dot (x # u) (y # v))\<^sup>2 = (x * y)\<^sup>2 + 2 * ?S * (x * y) + ?S\<^sup>2"
    by (simp add: dot_simps power2_eq_square algebra_simps)
  also have "\<dots> \<le> (x * y)\<^sup>2 + (?X * y\<^sup>2 + ?Y * x\<^sup>2) + ?X * ?Y"
    using m "4.IH" by linarith
  also have "\<dots> = energy (x # u) * energy (y # v)"
    by (simp add: energy_simps power2_eq_square algebra_simps)
  finally show ?case .
qed

lemma energy_add_expand:
  "length u = length v \<Longrightarrow> energy (map2 (+) u v) = energy u + 2 * dot u v + energy v"
  by (induction u v rule: list_induct2) (simp_all add: energy_simps dot_simps power2_eq_square algebra_simps)

lemma energy_add_le:
  assumes len: "length u = length v"
    and u: "energy u \<le> p\<^sup>2 * E" and v: "energy v \<le> q\<^sup>2 * E"
    and p: "0 \<le> p" and q: "0 \<le> q" and E: "0 \<le> E"
  shows "energy (map2 (+) u v) \<le> (p + q)\<^sup>2 * E"
proof -
  have "(dot u v)\<^sup>2 \<le> energy u * energy v"
    by (rule dot_square_le)
  also have "\<dots> \<le> (p\<^sup>2 * E) * (q\<^sup>2 * E)"
    by (rule mult_mono[OF u v]) (simp_all add: energy_nonneg E)
  also have "\<dots> = (p * q * E)\<^sup>2"
    by (simp add: power2_eq_square algebra_simps)
  finally have "(dot u v)\<^sup>2 \<le> (p * q * E)\<^sup>2" .
  moreover have "0 \<le> p * q * E"
    using p q E by simp
  ultimately have "dot u v \<le> p * q * E"
    by (rule power2_le_imp_le)
  with u v have "energy u + 2 * dot u v + energy v \<le> p\<^sup>2 * E + 2 * (p * q * E) + q\<^sup>2 * E"
    by linarith
  also have "\<dots> = (p + q)\<^sup>2 * E"
    by (simp add: power2_eq_square algebra_simps)
  finally show ?thesis
    by (simp add: energy_add_expand[OF len])
qed

text \<open>A numerator \<open>b0 # bs\<close> is \<open>b0\<close> times the input plus the output of \<open>bs\<close> delayed by one sample.\<close>

lemma lfilter_run_fir_Cons:
  "lfilter_run (b0 # bs) [1] xh yh xs =
   map2 (+) (map ((*) b0) xs) (take (length xs) (dot bs xh # lfilter_run bs [1] xh yh' xs))"
proof (induction xs arbitrary: xh yh yh')
  case Nil
  show ?case by simp
next
  case (Cons x xs)
  show ?case
    using Cons.IH[of "x # xh"] by (simp add: Let_def dot_simps)
qed

lemma lfilter_run_fir_Nil: "energy (lfilter_run [] [1] xh yh xs) = 0"
  by (induction xs arbitrary: xh yh) (simp_all add: Let_def dot_simps energy_simps)

lemma abs_sum_simps: "abs_sum [] = 0" "abs_sum (x # g) = \<bar>x\<bar> + abs_sum g"
  by (simp_all add: abs_sum_def)

lemma abs_sum_nonneg: "0 \<le> abs_sum g"
  by (induction g) (simp_all add: abs_sum_simps)

lemma fir_energy_le: "energy (lfilter_run b [1] [] [] xs) \<le> (abs_sum b)\<^sup>2 * energy xs"
proof (induction b)
  case Nil
  show ?case
    by (simp add: lfilter_run_fir_Nil abs_sum_simps)
next
  case (Cons b0 bs)
  let ?u = "map ((*) b0) xs"
  let ?v = "take (length xs) (dot bs [] # lfilter_run bs [1] [] [] xs)"
  have len: "length ?u = length ?v"
    by (simp add: length_lfilter_run)
  have u: "energy ?u \<le> \<bar>b0\<bar>\<^sup>2 * energy xs"
    by (simp add: energy_scale)
  have "energy ?v \<le> energy (dot bs [] # lfilter_run bs [1] [] [] xs)"
    by (rule energy_take_le)
  also have "\<dots> = energy (lfilter_run bs [1] [] [] xs)"
    by (simp add: energy_simps dot_simps)
  also have "\<dots> \<le> (abs_sum bs)\<^sup>2 * energy xs"
    by (rule Cons.IH)
  finally have v: "energy ?v \<le> (abs_sum bs)\<^sup>2 * energy xs" .
  have "energy (map2 (+) ?u ?v) \<le> (\<bar>b0\<bar> + abs_sum bs)\<^sup>2 * energy xs"
    by (rule energy_add_le[OF len u v]) (simp_all add: abs_sum_nonneg energy_nonneg)
  then show ?case
    by (simp add: lfilter_run_fir_Cons[where yh' = "[]"] abs_sum_simps)
qed

subsection \<open>Evaluated runs\<close>

lemmas run_defs = gfmiaif_def loop_entry_def cell_defaults_def cell_preframe_def cell_lip_def
  cell_gross_def gross_first_def gross_body_def cell_fine_glottis_def cell_fine_vocal_tract_def
  cell_params_def fresh_def outputs_def bindE_def getitem_def np_linspace_def np_arange_def
  np_multiply_def lfilter_def np_convolve_def librosa_lpc_def dot_def Let_def
  upto.simps upt_rec numeral_2_eq_2 power2_eq_square

lemma frame_a_runs: "\<exists>st'. gfmiaif librosa_lpc frame_a = Inr st'"
  by (simp add: frame_a_def run_defs)

lemma frame_a_cascade: "map_sum id ag1 (gfmiaif librosa_lpc frame_a) = Inr [1, - (20/101), 0]"
  by (simp add: frame_a_def run_defs)

lemma frame_b_iteration:
  "\<exists>st1 st'. loop_entry librosa_lpc frame_b = Inr st1 \<and> gross_body librosa_lpc st1 = Inr st'"
  by (simp add: frame_b_def run_defs)

section \<open>The claims\<close>

text \<open>
  C2. Whenever a run succeeds, the lip-radiation filter it returns is exactly \<open>[1, -d]\<close>,
  for every \<open>d\<close> (in particular for every \<open>d\<close> strictly between 0 and 1) and whatever
  the frame, the orders, the window and the linear-prediction routine are: \<open>al\<close> is built
  from the parameter and never estimated.
\<close>

theorem lip_radiation_fixed:
  assumes "gfmiaif lpc st = Inr st'"
  shows "al st' = [1, - d st]"
proof -
  from assms obtain st1 st2 st3 st4 where 1: "cell_preframe (cell_defaults st) = Inr st1"
    and 2: "cell_lip st1 = Inr st2" and 3: "cell_gross lpc st2 = Inr st3"
    and 4: "cell_fine_glottis lpc st3 = Inr st4" and 5: "cell_fine_vocal_tract lpc st4 = Inr st'"
    by (rule gfmiaif_Inr)
  from 1 have "d st1 = d st"
    by (auto elim!: cell_preframe_Inr simp: cell_defaults_inputs)
  with 2 have "al st2 = [1, - d st]"
    by (auto elim!: cell_lip_Inr)
  with cell_gross_frame[OF 3] have "al st3 = [1, - d st]"
    by (simp add: loop_frame_def)
  with 4 have "al st4 = [1, - d st]"
    by (auto elim!: cell_fine_glottis_Inr)
  with 5 show ?thesis
    by (auto elim!: cell_fine_vocal_tract_Inr)
qed

theorem lip_radiation_fixed_witness:
  "\<exists>st'. gfmiaif librosa_lpc frame_a = Inr st' \<and> al st' = [1, - d frame_a]"
proof -
  from frame_a_runs obtain st' where r: "gfmiaif librosa_lpc frame_a = Inr st'" ..
  from lip_radiation_fixed[OF r] r show ?thesis
    by blast
qed

text \<open>
  C3. Provided the linear-prediction routine returns monic filters of the requested order,
  every successful run returns \<open>av\<close> of length \<open>nv + 1\<close>, \<open>ag\<close> of length \<open>ng + 1\<close>, and
  the first coefficient of each of \<open>av\<close>, \<open>ag\<close> and \<open>al\<close> is 1.
\<close>

theorem shapes_and_monic:
  assumes c: "lpc_returns_monic lpc" and r: "gfmiaif lpc st = Inr st'"
  shows "int (length (av st')) = nv st + 1 \<and> int (length (ag st')) = ng st + 1 \<and>
         hd (av st') = 1 \<and> hd (ag st') = 1 \<and> hd (al st') = 1"
proof -
  from r obtain st3 st4 where 4: "cell_fine_glottis lpc st3 = Inr st4"
    and 5: "cell_fine_vocal_tract lpc st4 = Inr st'"
    and g: "ng st3 = ng st" and v: "nv st4 = nv st" and l: "al st4 = [1, - d st]"
    by (rule run_keeps_orders)
  from 4 obtain w where "lpc w (ng st3) = Inr (ag st4)"
    by (auto elim!: cell_fine_glottis_Inr)
  with c g obtain r1 where ag4: "ag st4 = 1 # r1" "int (length r1) = ng st"
    unfolding lpc_returns_monic_def by metis
  from 5 obtain w' where "lpc w' (nv st4) = Inr (av st')" and k: "ag st' = ag st4" "al st' = al st4"
    by (auto elim!: cell_fine_vocal_tract_Inr)
  with c v obtain r2 where "av st' = 1 # r2" "int (length r2) = nv st"
    unfolding lpc_returns_monic_def by metis
  with ag4 k l show ?thesis by simp
qed

theorem shapes_and_monic_witness:
  "lpc_returns_monic librosa_lpc \<and>
   (\<exists>st'. gfmiaif librosa_lpc frame_a = Inr st' \<and>
      int (length (av st')) = nv frame_a + 1 \<and> int (length (ag st')) = ng frame_a + 1 \<and>
      hd (av st') = 1 \<and> hd (ag st') = 1 \<and> hd (al st') = 1)"
proof -
  from frame_a_runs obtain st' where r: "gfmiaif librosa_lpc frame_a = Inr st'" ..
  from shapes_and_monic[OF librosa_lpc_monic r] r librosa_lpc_monic show ?thesis
    by blast
qed

text \<open>
  C4, as stated, fails. On the frame \<open>[1, 2]\<close> with \<open>nv = ng = 1\<close>, \<open>d = 1/2\<close> and the window
  \<open>[1, 1]\<close>, the padded integrated signal is \<open>[-1, 1/2, 5/4, 21/8]\<close> and the first fit is
  \<open>[1, -20/29]\<close>. The notebook's residual is \<open>[105/116, 409/232]\<close>; with the cascade as
  the denominator and \<open>[1]\<close> as the numerator it would be \<open>[3765/3364, 662769/195112]\<close>.
\<close>

theorem denominator_counterexample:
  "first_residual librosa_lpc frame_b = Inr [105/116, 409/232] \<and>
   spec_first_residual librosa_lpc frame_b = Inr [3765/3364, 662769/195112] \<and>
   first_residual librosa_lpc frame_b \<noteq> spec_first_residual librosa_lpc frame_b"
  by (simp add: first_residual_def spec_first_residual_def spec_residual_def frame_b_def run_defs)

text \<open>
  C4, amended. In every iteration of the loop, after any number \<open>k\<close> of completed
  iterations of any run, the padded integrated signal \<open>x_gv\<close> is filtered with the current
  cascade \<open>ag1\<close> as the numerator and \<open>[1]\<close> as the denominator, so that sample \<open>n\<close> of
  the output is \<open>\<Sum>j. ag1[j] x_gv[n - j]\<close>; the first \<open>Lpf\<close> samples are then dropped and
  the residual has the length of the frame.
\<close>

theorem inverse_filter_numerator:
  assumes e: "loop_entry lpc st0 = Inr st1"
    and l: "gross_loop lpc k st1 = Inr st"
    and b: "gross_body lpc st = Inr st'"
  shows "lfilter (ag1 st) [1] (x_gv st) = Inr (x_v1x st') \<and>
         (\<forall>n < length (x_gv st). x_v1x st' ! n = dot (ag1 st) (rev (take (Suc n) (x_gv st)))) \<and>
         s_v1x st' = drop (nat (Lpf st)) (x_v1x st') \<and>
         length (s_v1x st') = length (s_gvl st0)"
proof -
  have p: "preframed (length (s_gvl st0)) st"
    by (rule loop_frame_preframed[OF gross_loop_frame[OF l] loop_entry_preframed[OF e]])
  from b obtain xv sv where f: "lfilter (ag1 st) [1] (x_gv st) = Inr xv"
    and t: "take_idx xv (idx_pf st) = Inr sv"
    and xs: "x_v1x st' = xv" "s_v1x st' = sv"
    by (auto elim!: gross_body_Inr)
  from f have r: "xv = lfilter_run (ag1 st) [1] [] [] (x_gv st)"
    by (simp add: lfilter_def split: if_splits)
  then have len: "length xv = length (x_gv st)"
    by (simp add: length_lfilter_run)
  from p have i: "idx_pf st = [Lpf st..int (length xv) - 1]" and nn: "0 \<le> Lpf st"
    and tot: "length xv = nat (Lpf st) + length (s_gvl st0)"
    by (simp_all add: preframed_def np_arange_def len)
  from t take_idx_upto[OF nn, of xv] have d: "sv = drop (nat (Lpf st)) xv"
    by (simp add: i)
  have "\<forall>n < length (x_gv st). xv ! n = dot (ag1 st) (rev (take (Suc n) (x_gv st)))"
    by (simp add: r lfilter_run_fir_nth)
  with f d tot xs show ?thesis
    by simp
qed

theorem inverse_filter_numerator_witness:
  "\<exists>st1 st'. loop_entry librosa_lpc frame_b = Inr st1 \<and> gross_loop librosa_lpc 0 st1 = Inr st1 \<and>
     gross_body librosa_lpc st1 = Inr st' \<and>
     lfilter (ag1 st1) [1] (x_gv st1) = Inr (x_v1x st') \<and>
     (\<forall>n < length (x_gv st1). x_v1x st' ! n = dot (ag1 st1) (rev (take (Suc n) (x_gv st1)))) \<and>
     s_v1x st' = drop (nat (Lpf st1)) (x_v1x st') \<and>
     length (s_v1x st') = length (s_gvl frame_b)"
proof -
  from frame_b_iteration obtain st1 st' where e: "loop_entry librosa_lpc frame_b = Inr st1"
    and b: "gross_body librosa_lpc st1 = Inr st'"
    by blast
  have l: "gross_loop librosa_lpc 0 st1 = Inr st1"
    by simp
  from inverse_filter_numerator[OF e l b] e l b show ?thesis
    by blast
qed

text \<open>
  C5. The notebook's comment announces a glottis estimate made of \<open>ng\<close> first-order
  filters, which would have \<open>ng + 1\<close> coefficients. The loop runs \<open>ng\<close> times after the
  first fit, so the cascade is made of \<open>ng + 1\<close> first-order filters: whenever a run
  succeeds with a routine that returns monic filters of the requested order, \<open>ag1\<close> has
  \<open>ng + 2\<close> coefficients. On the frame \<open>[2, -1]\<close> with \<open>ng = 1\<close> it is \<open>[1, -20/101, 0]\<close>.
\<close>

theorem gross_cascade_length:
  assumes c: "lpc_returns_monic lpc" and r: "gfmiaif lpc st = Inr st'"
  shows "int (length (ag1 st')) = ng st + 2"
proof -
  from r obtain st1 st2 st3 st4 where 1: "cell_preframe (cell_defaults st) = Inr st1"
    and 2: "cell_lip st1 = Inr st2" and 3: "cell_gross lpc st2 = Inr st3"
    and 4: "cell_fine_glottis lpc st3 = Inr st4" and 5: "cell_fine_vocal_tract lpc st4 = Inr st'"
    by (rule gfmiaif_Inr)
  from 1 have "ng st1 = ng st"
    by (auto elim!: cell_preframe_Inr simp: cell_defaults_inputs)
  with 2 have g2: "ng st2 = ng st"
    by (auto elim!: cell_lip_Inr)
  from 3 obtain sta where f: "gross_first lpc st2 = Inr sta"
    and l: "gross_loop lpc (nat (ng st2)) sta = Inr st3"
    by (auto simp: cell_gross_def bindE_Inr_iff)
  from f obtain w where "lpc w 1 = Inr (ag1 sta)"
    by (auto elim!: gross_first_Inr)
  with c have la: "length (ag1 sta) = 2"
    unfolding lpc_returns_monic_def by fastforce
  then have "ag1 sta \<noteq> []"
    by auto
  from gross_loop_length[OF c l this] la g2
  have l3: "length (ag1 st3) = 2 + nat (ng st)"
    by simp
  from cell_gross_frame[OF 3] g2 have g3: "ng st3 = ng st"
    by (simp add: loop_frame_def)
  from 4 obtain w' where "lpc w' (ng st3) = Inr (ag st4)" and k4: "ag1 st4 = ag1 st3"
    by (auto elim!: cell_fine_glottis_Inr)
  with c g3 have "0 \<le> ng st"
    unfolding lpc_returns_monic_def by fastforce
  moreover from 5 have "ag1 st' = ag1 st4"
    by (auto elim!: cell_fine_vocal_tract_Inr)
  ultimately show ?thesis
    using l3 k4 by simp
qed

theorem gross_cascade_length_witness:
  "lpc_returns_monic librosa_lpc \<and>
   (\<exists>st'. gfmiaif librosa_lpc frame_a = Inr st' \<and> ag1 st' = [1, - (20/101), 0] \<and>
      int (length (ag1 st')) = ng frame_a + 2)"
proof -
  from frame_a_cascade obtain st' where r: "gfmiaif librosa_lpc frame_a = Inr st'"
    and a: "ag1 st' = [1, - (20/101), 0]"
    by (cases "gfmiaif librosa_lpc frame_a") auto
  from gross_cascade_length[OF librosa_lpc_monic r] r a librosa_lpc_monic show ?thesis
    by blast
qed

text \<open>
  C6, as stated, fails. With \<open>d = 2\<close> the run on the frame \<open>[2, -1]\<close> succeeds and returns
  \<open>al = [1, -2]\<close>; with a window of one weight on the same frame of two samples the run
  succeeds as well, the weight being broadcast.
\<close>

theorem no_validation_counterexample:
  "\<not> (0 < d frame_d2 \<and> d frame_d2 < 1) \<and>
   map_sum id outputs (gfmiaif librosa_lpc frame_d2) =
     Inr ([1, - (170594368492100/257881514224181)], [1, - (275028/3114253)], [1, - 2]) \<and>
   length (win frame_w1) \<noteq> length (s_gvl frame_w1) \<and>
   map_sum id outputs (gfmiaif librosa_lpc frame_w1) =
     Inr ([1, - (636008245940/1201423513421)], [1, 20460/97189], [1, - (1/2)])"
  by (simp add: frame_d2_def frame_w1_def run_defs)

text \<open>
  C6, amended. The notebook validates nothing before it filters. An empty frame raises
  \<^verbatim>\<open>IndexError\<close> where the pre-frame reads \<open>s_gvl[0]\<close>, and \<open>nv < -1\<close> raises
  \<^verbatim>\<open>ValueError\<close> in \<^verbatim>\<open>np.linspace\<close>, both before any filtering. On any other frame the
  pre-frame and the two integration filters run and \<open>al = [1, -d]\<close>, whatever \<open>d\<close> and the
  window are: \<open>d\<close> is never checked. A supplied window whose length differs from that of
  the frame, neither length being 1, then raises \<^verbatim>\<open>ValueError\<close> at the first windowing.
  With a linear-prediction routine that rejects orders below 1, a run with \<open>nv < 1\<close> or
  \<open>ng < 1\<close> never succeeds.
\<close>

theorem failures_without_validation:
  "(s_gvl sa = [] \<longrightarrow> gfmiaif lpc sa = Inl IndexError) \<and>
   (s_gvl sb \<noteq> [] \<and> nv sb < - 1 \<longrightarrow> gfmiaif lpc sb = Inl ValueError) \<and>
   (s_gvl sc \<noteq> [] \<and> - 1 \<le> nv sc \<longrightarrow>
      (\<exists>st2. bindE (cell_preframe (cell_defaults sc)) cell_lip = Inr st2 \<and> al st2 = [1, - d sc])) \<and>
   (s_gvl sw \<noteq> [] \<and> - 1 \<le> nv sw \<and> win sw \<noteq> [] \<and> length (win sw) \<noteq> length (s_gvl sw) \<and>
      length (win sw) \<noteq> 1 \<and> length (s_gvl sw) \<noteq> 1 \<longrightarrow> gfmiaif lpc sw = Inl ValueError) \<and>
   (lpc_rejects_order lpc \<and> (nv sd < 1 \<or> ng sd < 1) \<longrightarrow> (\<forall>st'. gfmiaif lpc sd \<noteq> Inr st'))"
proof -
  have p1: "gfmiaif lpc sa = Inl IndexError" if "s_gvl sa = []"
  proof -
    from that have "cell_preframe (cell_defaults sa) = Inl IndexError"
      by (simp add: cell_preframe_def cell_defaults_inputs getitem_def bindE_simps)
    then show ?thesis
      by (simp add: gfmiaif_def bindE_simps)
  qed
  have p2: "gfmiaif lpc sb = Inl ValueError" if a: "s_gvl sb \<noteq> [] \<and> nv sb < - 1"
  proof -
    from a have "getitem (s_gvl sb) 0 = Inr (hd (s_gvl sb))"
      by (cases "s_gvl sb") (simp_all add: getitem_def)
    moreover from a have "np_linspace (- hd (s_gvl sb)) (hd (s_gvl sb)) (nv sb + 1) = Inl ValueError"
      by (simp add: np_linspace_def)
    ultimately have "cell_preframe (cell_defaults sb) = Inl ValueError"
      by (simp add: cell_preframe_def cell_defaults_inputs bindE_simps Let_def)
    then show ?thesis
      by (simp add: gfmiaif_def bindE_simps)
  qed
  have p3: "\<exists>st2. bindE (cell_preframe (cell_defaults sc)) cell_lip = Inr st2 \<and> al st2 = [1, - d sc]"
    if a: "s_gvl sc \<noteq> [] \<and> - 1 \<le> nv sc"
  proof -
    from a have "s_gvl sc \<noteq> []" "- 1 \<le> nv sc"
      by simp_all
    then obtain ramp where "bindE (cell_preframe (cell_defaults sc)) cell_lip =
       Inr ((cell_defaults sc)\<lparr>Lpf := nv sc + 1, x_gvl := ramp @ s_gvl sc,
              idx_pf := np_arange (nv sc + 1) (int (length (ramp @ s_gvl sc))),
              al := [1, - d sc],
              s_gv := lfilter_run [1] [1, - d sc] [] [] (s_gvl sc),
              x_gv := lfilter_run [1] [1, - d sc] [] [] (ramp @ s_gvl sc)\<rparr>)"
      by (rule integration_runs)
    then show ?thesis
      by simp
  qed
  have p4: "gfmiaif lpc sw = Inl ValueError"
    if a: "s_gvl sw \<noteq> [] \<and> - 1 \<le> nv sw \<and> win sw \<noteq> [] \<and> length (win sw) \<noteq> length (s_gvl sw) \<and>
      length (win sw) \<noteq> 1 \<and> length (s_gvl sw) \<noteq> 1"
  proof -
    from a have d0: "cell_defaults sw = sw"
      by (simp add: cell_defaults_def)
    from a have "s_gvl sw \<noteq> []" "- 1 \<le> nv sw"
      by simp_all
    then obtain ramp st2 where r: "bindE (cell_preframe (cell_defaults sw)) cell_lip = Inr st2"
      and s: "st2 = (cell_defaults sw)\<lparr>Lpf := nv sw + 1, x_gvl := ramp @ s_gvl sw,
              idx_pf := np_arange (nv sw + 1) (int (length (ramp @ s_gvl sw))),
              al := [1, - d sw],
              s_gv := lfilter_run [1] [1, - d sw] [] [] (s_gvl sw),
              x_gv := lfilter_run [1] [1, - d sw] [] [] (ramp @ s_gvl sw)\<rparr>"
      by (rule integration_runs) simp
    from a have "np_multiply (s_gv st2) (win st2) = Inl ValueError"
      by (simp add: s d0 np_multiply_def length_lfilter_run)
    then have "cell_gross lpc st2 = Inl ValueError"
      by (simp add: cell_gross_def gross_first_def bindE_simps)
    with r show ?thesis
      by (auto simp: gfmiaif_def bindE_Inr_iff bindE_simps)
  qed
  have p5: "gfmiaif lpc sd \<noteq> Inr st'" if a: "lpc_rejects_order lpc \<and> (nv sd < 1 \<or> ng sd < 1)" for st'
  proof
    assume "gfmiaif lpc sd = Inr st'"
    then obtain st3 st4 where 4: "cell_fine_glottis lpc st3 = Inr st4"
      and 5: "cell_fine_vocal_tract lpc st4 = Inr st'"
      and g: "ng st3 = ng sd" and v: "nv st4 = nv sd"
      by (rule run_keeps_orders)
    from 4 obtain w where "lpc w (ng sd) = Inr (ag st4)"
      by (auto elim!: cell_fine_glottis_Inr simp: g)
    moreover from 5 obtain w' where "lpc w' (nv sd) = Inr (av st')"
      by (auto elim!: cell_fine_vocal_tract_Inr simp: v)
    ultimately show False
      using a unfolding lpc_rejects_order_def by (metis Inl_Inr_False)
  qed
  from p1 p2 p3 p4 p5 show ?thesis
    by blast
qed

theorem failures_without_validation_witness:
  "s_gvl frame_empty = [] \<and> gfmiaif librosa_lpc frame_empty = Inl IndexError \<and>
   s_gvl frame_nv \<noteq> [] \<and> nv frame_nv < - 1 \<and> gfmiaif librosa_lpc frame_nv = Inl ValueError \<and>
   s_gvl frame_d2 \<noteq> [] \<and> - 1 \<le> nv frame_d2 \<and> d frame_d2 = 2 \<and>
   (\<exists>st2. bindE (cell_preframe (cell_defaults frame_d2)) cell_lip = Inr st2 \<and> al st2 = [1, - 2]) \<and>
   s_gvl frame_w3 \<noteq> [] \<and> - 1 \<le> nv frame_w3 \<and> win frame_w3 \<noteq> [] \<and>
   length (win frame_w3) \<noteq> length (s_gvl frame_w3) \<and> length (win frame_w3) \<noteq> 1 \<and>
   length (s_gvl frame_w3) \<noteq> 1 \<and> gfmiaif librosa_lpc frame_w3 = Inl ValueError \<and>
   lpc_rejects_order librosa_lpc \<and> ng frame_ng < 1 \<and> (\<forall>st'. gfmiaif librosa_lpc frame_ng \<noteq> Inr st')"
proof -
  have a: "s_gvl frame_empty = []"
    by (simp add: frame_empty_def cell_params_def)
  have b: "s_gvl frame_nv \<noteq> [] \<and> nv frame_nv < - 1"
    by (simp add: frame_nv_def cell_params_def)
  have c: "s_gvl frame_d2 \<noteq> [] \<and> - 1 \<le> nv frame_d2" and c': "d frame_d2 = 2"
    by (simp_all add: frame_d2_def cell_params_def)
  have w: "s_gvl frame_w3 \<noteq> [] \<and> - 1 \<le> nv frame_w3 \<and> win frame_w3 \<noteq> [] \<and>
      length (win frame_w3) \<noteq> length (s_gvl frame_w3) \<and> length (win frame_w3) \<noteq> 1 \<and>
      length (s_gvl frame_w3) \<noteq> 1"
    by (simp add: frame_w3_def cell_params_def)
  have d: "lpc_rejects_order librosa_lpc \<and> (nv frame_ng < 1 \<or> ng frame_ng < 1)"
    and d': "ng frame_ng < 1"
    by (simp_all add: librosa_lpc_rejects frame_ng_def cell_params_def)
  from failures_without_validation[of frame_empty librosa_lpc frame_nv frame_d2 frame_w3 frame_ng]
    a b c w d
  have "gfmiaif librosa_lpc frame_empty = Inl IndexError"
    and "gfmiaif librosa_lpc frame_nv = Inl ValueError"
    and "\<exists>st2. bindE (cell_preframe (cell_defaults frame_d2)) cell_lip = Inr st2 \<and> al st2 = [1, - d frame_d2]"
    and "gfmiaif librosa_lpc frame_w3 = Inl ValueError"
    and "\<forall>st'. gfmiaif librosa_lpc frame_ng \<noteq> Inr st'"
    by blast+
  with a b c c' w d d' show ?thesis
    by simp
qed

text \<open>
  C7. Provided the linear-prediction routine fails with \<open>DegenerateFrameError\<close> on an
  all-zero signal, every run on an all-zero frame of positive length fails with
  \<open>DegenerateFrameError\<close>, for every \<open>d\<close> and \<open>ng\<close>, every \<open>nv \<ge> -1\<close>, and a window that is
  empty (the default) or of the frame's length: the integrated frame and its windowed
  version are all-zero and the first fit fails.
\<close>

theorem zero_frame_fails:
  assumes c: "lpc_fails_degenerate lpc"
    and ne: "s_gvl st \<noteq> []"
    and z: "\<forall>v \<in> set (s_gvl st). v = 0"
    and v: "- 1 \<le> nv st"
    and w: "win st = [] \<or> length (win st) = length (s_gvl st)"
  shows "gfmiaif lpc st = Inl DegenerateFrameError"
proof -
  let ?st0 = "cell_defaults st"
  have w0: "length (win ?st0) = length (s_gvl st)"
    using w ne by (auto simp: cell_defaults_def length_np_hanning)
  have s0: "s_gvl ?st0 = s_gvl st" "nv ?st0 = nv st" "d ?st0 = d st"
    by (simp_all add: cell_defaults_inputs)
  from ne z have h: "getitem (s_gvl st) 0 = Inr 0"
    by (cases "s_gvl st") (simp_all add: getitem_def)
  from v obtain ramp where l: "np_linspace 0 0 (nv st + 1) = Inr ramp"
    using np_linspace_runs[of "nv st + 1" 0 0] by auto
  let ?x = "ramp @ s_gvl st"
  let ?st1 = "?st0\<lparr>Lpf := nv st + 1, x_gvl := ?x,
                      idx_pf := np_arange (nv st + 1) (int (length ?x))\<rparr>"
  have 1: "cell_preframe ?st0 = Inr ?st1"
    using h l by (simp add: cell_preframe_def s0 bindE_simps Let_def)
  let ?sg = "lfilter_run [1] [1, - d st] [] [] (s_gvl st)"
  let ?xg = "lfilter_run [1] [1, - d st] [] [] ?x"
  let ?st2 = "?st1\<lparr>al := [1, - d st], s_gv := ?sg, x_gv := ?xg\<rparr>"
  have 2: "cell_lip ?st1 = Inr ?st2"
    by (simp add: cell_lip_def s0 lfilter_integrate bindE_simps Let_def)
  from z have z': "set (s_gvl st) \<subseteq> {0}"
    by auto
  have zs: "set ?sg \<subseteq> {0}"
    by (rule lfilter_run_zero[OF z']) simp_all
  have "length ?sg = length (win ?st0)"
    using w0 by (simp add: length_lfilter_run)
  then have m: "np_multiply (s_gv ?st2) (win ?st2) = Inr (map2 (*) ?sg (win ?st0))"
    by (simp add: np_multiply_def)
  have "\<forall>v \<in> set (map2 (*) ?sg (win ?st0)). v = 0"
    using map2_zero[OF zs, of "win ?st0"] by blast
  with c have "lpc (map2 (*) ?sg (win ?st0)) 1 = Inl DegenerateFrameError"
    unfolding lpc_fails_degenerate_def by (metis order_refl)
  with m have "gross_first lpc ?st2 = Inl DegenerateFrameError"
    by (simp add: gross_first_def bindE_simps)
  then have "cell_gross lpc ?st2 = Inl DegenerateFrameError"
    by (simp add: cell_gross_def bindE_simps)
  with 1 2 show ?thesis
    by (simp add: gfmiaif_def bindE_simps)
qed

theorem zero_frame_fails_witness:
  "lpc_fails_degenerate librosa_lpc \<and> s_gvl frame_zero = [0, 0, 0] \<and> - 1 \<le> nv frame_zero \<and>
   length (win frame_zero) = length (s_gvl frame_zero) \<and>
   gfmiaif librosa_lpc frame_zero = Inl DegenerateFrameError"
proof -
  have h0: "s_gvl frame_zero = [0, 0, 0]"
    and h3: "- 1 \<le> nv frame_zero"
    and h4: "length (win frame_zero) = length (s_gvl frame_zero)"
    by (simp_all add: frame_zero_def cell_params_def)
  from h0 have h1: "s_gvl frame_zero \<noteq> []" and h2: "\<forall>v \<in> set (s_gvl frame_zero). v = 0"
    by simp_all
  have "gfmiaif librosa_lpc frame_zero = Inl DegenerateFrameError"
    by (rule zero_frame_fails[OF librosa_lpc_degenerate h1 h2 h3 disjI2[OF h4]])
  with librosa_lpc_degenerate h0 h3 h4 show ?thesis
    by (intro conjI)
qed

text \<open>
  C8, as stated, fails. On the frame \<open>[2, -1]\<close> with \<open>nv = ng = 1\<close>, \<open>d = 1/2\<close> and the window
  \<open>[1, 1]\<close> the run succeeds; the residual after the gross cascade is \<open>[465/202, -99/404]\<close>,
  of energy \<open>874701/163216 > 5\<close>, and the windowed frame is \<open>[2, -1]\<close>, of energy 5
  (the integrated frame, windowed, is \<open>[2, 0]\<close>, of energy 4).
\<close>

theorem residual_energy_counterexample:
  "map_sum id s_g1 (gfmiaif librosa_lpc frame_a) = Inr [465/202, - (99/404)] \<and>
   np_multiply (s_gvl frame_a) (win frame_a) = Inr [2, - 1] \<and>
   \<not> energy [465/202, - (99/404)] \<le> energy [2, - 1] \<and>
   map_sum id s_gv (gfmiaif librosa_lpc frame_a) = Inr [2, 0] \<and>
   \<not> energy [465/202, - (99/404)] \<le> energy [2, 0]"
  by (simp add: frame_a_def energy_def run_defs)

text \<open>
  C8, amended. For every successful run, the energy of the residual \<open>s_g1\<close> after the
  gross cascade is at most \<open>(\<Sum>k. |ag1[k]|)\<^sup>2\<close> times the energy of the padded integrated
  signal \<open>x_gv\<close> that the cascade filters.
\<close>

theorem gross_residual_energy_bound:
  assumes r: "gfmiaif lpc st = Inr st'"
  shows "energy (s_g1 st') \<le> (abs_sum (ag1 st'))\<^sup>2 * energy (x_gv st')"
proof -
  from r obtain st1 st2 st3 st4 where 1: "cell_preframe (cell_defaults st) = Inr st1"
    and 2: "cell_lip st1 = Inr st2" and 3: "cell_gross lpc st2 = Inr st3"
    and 4: "cell_fine_glottis lpc st3 = Inr st4" and 5: "cell_fine_vocal_tract lpc st4 = Inr st'"
    by (rule gfmiaif_Inr)
  from 3 obtain sta where f: "gross_first lpc st2 = Inr sta"
    and l: "gross_loop lpc (nat (ng st2)) sta = Inr st3"
    by (auto simp: cell_gross_def bindE_Inr_iff)
  from 1 2 f have "loop_entry lpc st = Inr sta"
    by (simp add: loop_entry_def bindE_simps)
  then have p: "preframed (length (s_gvl st)) st3"
    by (rule loop_frame_preframed[OF gross_loop_frame[OF l] loop_entry_preframed])
  from 4 obtain xg sg where x: "lfilter (ag1 st3) [1] (x_gv st3) = Inr xg"
    and t: "take_idx xg (idx_pf st3) = Inr sg"
    and s4: "s_g1 st4 = sg" "ag1 st4 = ag1 st3" "x_gv st4 = x_gv st3"
    by (auto elim!: cell_fine_glottis_Inr)
  from x have xr: "xg = lfilter_run (ag1 st3) [1] [] [] (x_gv st3)"
    by (simp add: lfilter_def split: if_splits)
  then have len: "length xg = length (x_gv st3)"
    by (simp add: length_lfilter_run)
  from p have i: "idx_pf st3 = [Lpf st3..int (length xg) - 1]" and nn: "0 \<le> Lpf st3"
    by (simp_all add: preframed_def np_arange_def len)
  from t take_idx_upto[OF nn, of xg] have "sg = drop (nat (Lpf st3)) xg"
    by (simp add: i)
  then have "energy sg \<le> energy xg"
    by (simp add: energy_drop_le)
  also have "\<dots> \<le> (abs_sum (ag1 st3))\<^sup>2 * energy (x_gv st3)"
    unfolding xr by (rule fir_energy_le)
  finally have "energy (s_g1 st4) \<le> (abs_sum (ag1 st4))\<^sup>2 * energy (x_gv st4)"
    by (simp add: s4)
  moreover from 5 have "s_g1 st' = s_g1 st4" "ag1 st' = ag1 st4" "x_gv st' = x_gv st4"
    by (auto elim!: cell_fine_vocal_tract_Inr)
  ultimately show ?thesis
    by simp
qed

theorem gross_residual_energy_bound_witness:
  "\<exists>st'. gfmiaif librosa_lpc frame_a = Inr st' \<and>
     energy (s_g1 st') \<le> (abs_sum (ag1 st'))\<^sup>2 * energy (x_gv st')"
proof -
  from frame_a_runs obtain st' where r: "gfmiaif librosa_lpc frame_a = Inr st'" ..
  from gross_residual_energy_bound[OF r] r show ?thesis
    by blast
qed

text \<open>
  C9. The displayed triple, or the exception raised, is a function of the five inputs alone:
  two notebooks that agree on \<open>s_gvl\<close>, \<open>nv\<close>, \<open>ng\<close>, \<open>d\<close> and \<open>win\<close> give the same
  result, whatever values their other globals hold from earlier runs.
\<close>

theorem run_deterministic:
  assumes "inputs st1 = inputs st2"
  shows "map_sum id outputs (gfmiaif lpc st1) = map_sum id outputs (gfmiaif lpc st2)"
  unfolding gfmiaif_def
  by (intro bindE_view[OF cell_preframe_view[OF assms]] bindE_view[OF cell_lip_view]
      bindE_view[OF cell_gross_view] bindE_view[OF cell_fine_glottis_view]
      cell_fine_vocal_tract_view)

theorem run_deterministic_witness:
  "inputs frame_a = inputs (frame_a\<lparr>x_gv := [9], ag1 := [7], ag := [5, 5], av := [3]\<rparr>) \<and>
   map_sum id outputs (gfmiaif librosa_lpc frame_a) =
   map_sum id outputs (gfmiaif librosa_lpc (frame_a\<lparr>x_gv := [9], ag1 := [7], ag := [5, 5], av := [3]\<rparr>))"
  using run_deterministic[of frame_a "frame_a\<lparr>x_gv := [9], ag1 := [7], ag := [5, 5], av := [3]\<rparr>" librosa_lpc]
  by (simp add: inputs_def)

text \<open>
  C10. An empty \<open>win\<close> raises nothing: the default cell replaces it by the Hann window of
  the frame's length, whose length is that of the frame, and the run is the run on that
  window.
\<close>

theorem empty_window_default:
  assumes "win st = []"
  shows "cell_defaults st = st\<lparr>win := np_hanning (int (length (s_gvl st)))\<rparr> \<and>
         length (win (cell_defaults st)) = length (s_gvl st) \<and>
         gfmiaif lpc st = gfmiaif lpc (st\<lparr>win := np_hanning (int (length (s_gvl st)))\<rparr>)"
proof -
  from assms have e: "cell_defaults st = st\<lparr>win := np_hanning (int (length (s_gvl st)))\<rparr>"
    by (simp add: cell_defaults_def)
  then have "length (win (cell_defaults st)) = length (s_gvl st)"
    by (simp add: length_np_hanning)
  moreover have "gfmiaif lpc st = gfmiaif lpc (cell_defaults st)"
    by (simp add: gfmiaif_def cell_defaults_idem)
  ultimately show ?thesis using e by simp
qed

theorem empty_window_default_witness:
  "win frame_default = [] \<and>
   cell_defaults frame_default =
     frame_default\<lparr>win := np_hanning (int (length (s_gvl frame_default)))\<rparr> \<and>
   length (win (cell_defaults frame_default)) = length (s_gvl frame_default) \<and>
   gfmiaif librosa_lpc frame_default =
     gfmiaif librosa_lpc (frame_default\<lparr>win := np_hanning (int (length (s_gvl frame_default)))\<rparr>)"
proof -
  have w: "win frame_default = []"
    by (simp add: frame_default_def cell_params_def)
  from empty_window_default[OF w, of librosa_lpc] w show ?thesis
    by blast
qed

end
